theory Spec2Isabelle
  imports Complex_Main
begin

section \<open>PerfTimer: a shallow embedding of PerfTimer.h\<close>

text \<open>
  The class \<open>PerfTimer\<close> of \<open>Templates/Cpp-Templates/PerfTimer.h\<close> is modelled by a record
  of its four data members and one function per method. Time stamps are tick counts of
  \<open>std::chrono::high_resolution_clock\<close> since the clock's epoch (an \<open>int\<close>); the value
  that \<open>now()\<close> returns is an argument of the method that reads the clock. A
  \<open>double\<close> is modelled by a \<open>real\<close>: comparisons are exact, arithmetic is the
  arithmetic of the reals (rounding is not part of the model), and a division by zero is
  written out as an outcome of its own, since \<open>x / 0 = 0\<close> in HOL. The one rounding
  that is modelled is the conversion of the 64-bit tick count to \<open>double\<close> in
  \<open>stopTimer\<close>, which changes the value from \<open>2\<^sup>5\<^sup>3\<close> ticks upwards.
\<close>

subsection \<open>Outcomes of a call\<close>

text \<open>
  The error kinds of the specification's taxonomy. No method of \<open>PerfTimer.h\<close> throws or
  returns a status: every method is \<open>void\<close> (or returns a \<open>double\<close>), so the model of
  the code never produces \<open>Fails\<close>; the constructor is there for the claims to speak about.
\<close>

datatype error = InvalidState | NoSamples | IOError

text \<open>The operations whose behaviour ISO C++ leaves undefined and that the code can reach.\<close>

datatype fault = Division_by_zero | Deref_end_iterator | Index_out_of_range

datatype 'a outcome = Returns 'a | Fails error | Undefined fault

fun bind :: "'a outcome \<Rightarrow> ('a \<Rightarrow> 'b outcome) \<Rightarrow> 'b outcome" where
  "bind (Returns x) f = f x"
| "bind (Fails e) f = Fails e"
| "bind (Undefined u) f = Undefined u"

subsection \<open>Output streams\<close>

text \<open>
  What is inserted into a \<open>std::ostream\<close> with \<open><<\<close>: a string, a \<open>double\<close>, a
  \<open>size_t\<close>, or \<open>std::endl\<close>. A stream is the sequence of items it has accepted and
  its state: an insertion into a stream that is not good (an \<open>std::ofstream\<close> whose file
  did not open has \<open>failbit\<close> set) writes nothing.
\<close>

datatype item = Str string | Dbl real | Cnt nat | Endl

record ostream =
  good :: bool
  written :: "item list"

definition put :: "item \<Rightarrow> ostream \<Rightarrow> ostream" where
  "put x os = (if good os then os\<lparr>written := written os @ [x]\<rparr> else os)"

fun puts :: "item list \<Rightarrow> ostream \<Rightarrow> ostream" where
  "puts [] os = os"
| "puts (x # xs) os = puts xs (put x os)"

text \<open>
  The part of the process environment that the class touches: the two console streams,
  the files by path, and the paths that cannot be opened for writing, each with the text
  that \<open>std::strerror(errno)\<close> gives after the failed open.
\<close>

record world =
  cout :: "item list"
  cerr :: "item list"
  files :: "string \<Rightarrow> item list option"
  unopenable :: "string \<Rightarrow> string option"

subsection \<open>The class\<close>

record PerfTimer =
  startTime :: int
  timeDiff :: "real list"
  activeTimer :: bool
  name :: string

text \<open>
  The constructor initialises \<open>_activeTimer\<close> and \<open>_name\<close>; \<open>_timeDiff\<close> is default
  constructed (empty) and so is \<open>_startTime\<close>: the default \<open>time_point\<close> is the epoch.
\<close>

definition new_PerfTimer :: "string \<Rightarrow> PerfTimer" where
  "new_PerfTimer n = \<lparr>startTime = 0, timeDiff = [], activeTimer = False, name = n\<rparr>"

definition startTimer :: "int \<Rightarrow> PerfTimer \<times> world \<Rightarrow> PerfTimer \<times> world" where
  "startTimer now = (\<lambda>(t, w).
     if activeTimer t
     then (t, w\<lparr>cout := cout w @ [Str (name t), Str ''::timer is already active. No action taken'']\<rparr>)
     else (t\<lparr>startTime := now\<rparr>, w))"

text \<open>
  \<open>static_cast<double>\<close> of a 64-bit integer: a \<open>double\<close> holds 53 significant bits, so
  the \<open>k\<close> bits of the magnitude beyond 53 are rounded away, to nearest and on a tie to
  the even neighbour. Up to 53 bits \<open>k\<close> is \<open>0\<close> and the value is kept.
\<close>

function bit_length :: "nat \<Rightarrow> nat" where
  "bit_length n = (if n = 0 then 0 else Suc (bit_length (n div 2)))"
  by pat_completeness auto
termination
  by (relation "measure id") auto

declare bit_length.simps [simp del]

definition to_double :: "int \<Rightarrow> real" where
  "to_double n =
     (let a = nat \<bar>n\<bar>;
          k = bit_length a - 53;
          q = a div 2 ^ k;
          r = a mod 2 ^ k;
          m = (if 2 ^ k < 2 * r \<or> (2 * r = 2 ^ k \<and> odd q) then q + 1 else q)
      in real_of_int (sgn n) * real (m * 2 ^ k))"

definition stopTimer :: "int \<Rightarrow> PerfTimer \<Rightarrow> PerfTimer" where
  "stopTimer now t =
     (let diff = to_double (now - startTime t)
      in t\<lparr>timeDiff := timeDiff t @ [diff], activeTimer := False\<rparr>)"

subsection \<open>Statistics\<close>

text \<open>
  The division of two \<open>double\<close>s. ISO C++ leaves a division by zero undefined; an
  implementation that follows IEC 60559 computes a NaN for \<open>0.0 / 0\<close> and goes on, in
  \<open>reportStats\<close> to the dereference of the end iterator, which is undefined as well. The
  model stops at the first of the two.
\<close>

definition fdiv :: "real \<Rightarrow> real \<Rightarrow> real outcome" where
  "fdiv x y = (if y = 0 then Undefined Division_by_zero else Returns (x / y))"

text \<open>\<open>std::accumulate\<close> and \<open>std::inner_product\<close> run left to right from the initial value.\<close>

definition accumulate :: "real list \<Rightarrow> real \<Rightarrow> real" where
  "accumulate xs init = foldl (+) init xs"

definition inner_product :: "real list \<Rightarrow> real list \<Rightarrow> real \<Rightarrow> real" where
  "inner_product xs ys init = foldl (\<lambda>acc (a, b). acc + a * b) init (zip xs ys)"

text \<open>
  \<open>std::minmax_element\<close> returns the iterator to the first smallest and to the last
  largest element, here as indices; on an empty range both are the end iterator, the
  index \<open>length xs = 0\<close>.
\<close>

fun minmax_scan :: "real list \<Rightarrow> nat \<Rightarrow> nat \<Rightarrow> nat \<Rightarrow> real list \<Rightarrow> nat \<times> nat" where
  "minmax_scan xs i lo hi [] = (lo, hi)"
| "minmax_scan xs i lo hi (y # ys) =
     minmax_scan xs (Suc i) (if y < xs ! lo then i else lo) (if y < xs ! hi then hi else i) ys"

definition minmax_element :: "real list \<Rightarrow> nat \<times> nat" where
  "minmax_element xs = (if xs = [] then (0, 0) else minmax_scan xs 1 0 0 (tl xs))"

definition deref :: "real list \<Rightarrow> nat \<Rightarrow> real outcome" where
  "deref xs i = (if i < length xs then Returns (xs ! i) else Undefined Deref_end_iterator)"

definition standardDeviation :: "PerfTimer \<Rightarrow> real outcome" where
  "standardDeviation t =
     (let sum = accumulate (timeDiff t) 0
      in bind (fdiv sum (real (length (timeDiff t)))) (\<lambda>mean.
         let diff = map (\<lambda>x. x - mean) (timeDiff t);
             sq_sum = inner_product diff diff 0
         in bind (fdiv sq_sum (real (length (timeDiff t)))) (\<lambda>q. Returns (sqrt q))))"

text \<open>
  The unit strings; the literal written with the universal character name of the micro
  sign (code point B5) and \<open>s\<close> is, in UTF-8, the bytes C2 and B5 followed by \<open>s\<close>.
\<close>

definition micro_s :: string where
  "micro_s = [CHR 0xC2, CHR 0xB5, CHR ''s'']"

definition converter :: "real \<Rightarrow> real \<times> string" where
  "converter time =
     (if time \<le> 1000 then (time, ''ns'')
      else if time \<le> 1000000 then (time * (1 / 1000), micro_s)
      else if time \<le> 1000000000 then (time * (1 / 1000000), ''ms'')
      else if time \<le> 600000000000 then (time * (1 / 1000000000), ''s'')
      else if time \<le> 10800000000000 then (time * ((1 / 1000000000) / 60), ''mins'')
      else (time * ((1 / 1000000000) / 3600), ''hrs''))"

text \<open>
  Lines 172 to 177 of \<open>reportStats\<close>: the statistics in nanoseconds, in the order the
  code computes them.
\<close>

record stats =
  totalTime :: real
  avgTime :: real
  stdDev :: real
  minTime :: real
  maxTime :: real

definition statistics :: "PerfTimer \<Rightarrow> stats outcome" where
  "statistics t =
     (let total = accumulate (timeDiff t) 0
      in bind (fdiv total (real (length (timeDiff t)))) (\<lambda>avg.
         bind (standardDeviation t) (\<lambda>sd.
         let minMax = minmax_element (timeDiff t)
         in bind (deref (timeDiff t) (fst minMax)) (\<lambda>mn.
            bind (deref (timeDiff t) (snd minMax)) (\<lambda>mx.
            Returns \<lparr>totalTime = total, avgTime = avg, stdDev = sd, minTime = mn, maxTime = mx\<rparr>)))))"

definition report_items :: "string \<Rightarrow> nat \<Rightarrow> stats \<Rightarrow> item list" where
  "report_items n k s =
     (let (total, totalUnit) = converter (totalTime s);
          (avg, avgUnit) = converter (avgTime s);
          (sd, sdUnit) = converter (stdDev s);
          (mn, mnUnit) = converter (minTime s);
          (mx, mxUnit) = converter (maxTime s)
      in [Str ''Timer name: '', Str n, Endl, Str ''  '',
          Str ''Number of trials: '', Cnt k, Str '', '',
          Str ''Total time: '', Dbl total, Str totalUnit, Str '', '',
          Str ''Average Time: '', Dbl avg, Str avgUnit, Str '', '',
          Str ''Standard Deviation: '', Dbl sd, Str sdUnit, Str '', '',
          Str ''Fastest Run: '', Dbl mn, Str mnUnit, Str '', '',
          Str ''Slowest Run: '', Dbl mx, Str mxUnit, Endl])"

definition reportStats :: "PerfTimer \<Rightarrow> ostream \<Rightarrow> ostream outcome" where
  "reportStats t outStream =
     bind (statistics t) (\<lambda>s.
       Returns (puts (report_items (name t) (length (timeDiff t)) s) outStream))"

subsection \<open>Export\<close>

text \<open>
  Lines 218 to 227 of \<open>saveTimingData\<close>. Element 0 is read with \<open>operator[]\<close> before the
  test \<open>_timeDiff.size() > 0\<close>; \<open>operator[]\<close> beyond the size is undefined.
\<close>

definition index :: "real list \<Rightarrow> nat \<Rightarrow> real outcome" where
  "index xs i = (if i < length xs then Returns (xs ! i) else Undefined Index_out_of_range)"

function write_rest :: "real list \<Rightarrow> nat \<Rightarrow> ostream \<Rightarrow> ostream outcome" where
  "write_rest xs i os =
     (if i < length xs
      then (case index xs i of
              Returns x \<Rightarrow> write_rest xs (Suc i) (put (Dbl x) (put (Str '','') os))
            | Fails e \<Rightarrow> Fails e
            | Undefined u \<Rightarrow> Undefined u)
      else Returns os)"
  by pat_completeness auto
termination
  by (relation "measure (\<lambda>(xs, i, os). length xs - i)") auto

declare write_rest.simps [simp del]

definition write_vector :: "PerfTimer \<Rightarrow> ostream \<Rightarrow> ostream outcome" where
  "write_vector t os =
     bind (index (timeDiff t) 0) (\<lambda>x0.
       let os1 = put (Dbl x0) os
       in bind (if length (timeDiff t) > 0
                then write_rest (timeDiff t) 1 os1
                else Returns os1) (\<lambda>os2.
          Returns (put Endl os2)))"

definition saveTimingData :: "string \<Rightarrow> PerfTimer \<Rightarrow> world \<Rightarrow> world outcome" where
  "saveTimingData filePath t w =
     (let (saveFile, w1) =
            (case unopenable w filePath of
               None \<Rightarrow> (\<lparr>good = True, written = []\<rparr>,
                         w\<lparr>files := (files w)(filePath \<mapsto> []),
                           cout := cout w @ [Str ''yes I'm open'', Endl]\<rparr>)
             | Some msg \<Rightarrow> (\<lparr>good = False, written = []\<rparr>,
                         w\<lparr>cerr := cerr w @ [Str ''PerfTimer output file failed to open. Error: '',
                                               Str msg, Endl]\<rparr>))
      in bind (reportStats t saveFile) (\<lambda>os1.
         bind (write_vector t os1) (\<lambda>os2.
         Returns (if good os2 then w1\<lparr>files := (files w1)(filePath \<mapsto> written os2)\<rparr> else w1))))"

subsection \<open>Sequences of calls\<close>

datatype call = StartTimer int | StopTimer int | ReportStats | SaveTimingData string

fun exec :: "call \<Rightarrow> PerfTimer \<times> world \<Rightarrow> (PerfTimer \<times> world) outcome" where
  "exec (StartTimer now) (t, w) = Returns (startTimer now (t, w))"
| "exec (StopTimer now) (t, w) = Returns (stopTimer now t, w)"
| "exec ReportStats (t, w) =
     bind (reportStats t \<lparr>good = True, written = cout w\<rparr>) (\<lambda>os. Returns (t, w\<lparr>cout := written os\<rparr>))"
| "exec (SaveTimingData filePath) (t, w) =
     bind (saveTimingData filePath t w) (\<lambda>w'. Returns (t, w'))"

fun run :: "call list \<Rightarrow> PerfTimer \<times> world \<Rightarrow> (PerfTimer \<times> world) outcome" where
  "run [] s = Returns s"
| "run (c # cs) s = bind (exec c s) (run cs)"

definition world0 :: world where
  "world0 = \<lparr>cout = [], cerr = [], files = (\<lambda>p. None), unopenable = (\<lambda>p. None)\<rparr>"

subsection \<open>The text of a stream\<close>

text \<open>
  What the insertions write, character by character. These are functions of the C++
  standard library, not of this repository, written here from ISO C++ and ISO C:
  \<open>operator<<\<close> on a \<open>size_t\<close> writes the decimal digits; on a \<open>double\<close>, with the
  flags and the precision 6 of a stream that nobody has changed (\<open>PerfTimer.h\<close> sets
  neither), it writes what \<open>printf\<close> does for \<open>%g\<close>: the value is rounded to six significant
  digits (to nearest, ties to even); with \<open>e\<close> the decimal exponent of the rounded value,
  style \<open>f\<close> is used when \<open>-4 \<le> e < 6\<close> and style \<open>e\<close> otherwise (exponent with a sign and at
  least two digits); trailing zeros of the fraction are removed, and the point with them
  when nothing is left. \<open>std::endl\<close> writes a newline.
\<close>

definition digit_char :: "nat \<Rightarrow> char" where
  "digit_char d = char_of (48 + d)"

function digits :: "nat \<Rightarrow> string" where
  "digits n = (if n < 10 then [digit_char n] else digits (n div 10) @ [digit_char (n mod 10)])"
  by pat_completeness auto
termination
  by (relation "measure id") auto

declare digits.simps [simp del]

definition strip_zeros :: "string \<Rightarrow> string" where
  "strip_zeros s = rev (dropWhile (\<lambda>c. c = CHR ''0'') (rev s))"

definition point :: "string \<Rightarrow> string" where
  "point fr = (if fr = [] then [] else CHR ''.'' # fr)"

definition round_half_even :: "real \<Rightarrow> int" where
  "round_half_even x =
     (if x - of_int \<lfloor>x\<rfloor> > 1 / 2 \<or> (x - of_int \<lfloor>x\<rfloor> = 1 / 2 \<and> odd \<lfloor>x\<rfloor>) then \<lfloor>x\<rfloor> + 1 else \<lfloor>x\<rfloor>)"

definition style_e :: "string \<Rightarrow> int \<Rightarrow> string" where
  "style_e ds e =
     hd ds # point (strip_zeros (tl ds)) @ [CHR ''e'', if e < 0 then CHR ''-'' else CHR ''+'']
       @ (if \<bar>e\<bar> < 10 then ''0'' else []) @ digits (nat \<bar>e\<bar>)"

definition style_f :: "string \<Rightarrow> int \<Rightarrow> string" where
  "style_f ds e =
     (if 0 \<le> e then take (nat e + 1) ds @ point (strip_zeros (drop (nat e + 1) ds))
      else CHR ''0'' # point (strip_zeros (replicate (nat (- e - 1)) (CHR ''0'') @ ds)))"

text \<open>
  The decimal exponent of \<open>a > 0\<close>, the \<open>e\<close> with \<open>10\<^sup>e \<le> a < 10\<^sup>e\<^sup>+\<^sup>1\<close>: from one upwards
  it is the number of digits of the integer part less one.
\<close>

definition decimal_exponent :: "real \<Rightarrow> int" where
  "decimal_exponent a =
     (if 1 \<le> a then int (length (digits (nat \<lfloor>a\<rfloor>))) - 1 else \<lfloor>log 10 a\<rfloor>)"

definition g6 :: "real \<Rightarrow> string" where
  "g6 x =
     (if x = 0 then ''0''
      else
        let e0 = decimal_exponent \<bar>x\<bar>;
            m0 = round_half_even (\<bar>x\<bar> * 10 powi (5 - e0));
            (m, e) = (if m0 = 1000000 then (100000, e0 + 1) else (m0, e0));
            ds = digits (nat m)
        in (if x < 0 then ''-'' else [])
           @ (if e < - 4 \<or> 6 \<le> e then style_e ds e else style_f ds e))"

fun render :: "item \<Rightarrow> string" where
  "render (Str s) = s"
| "render (Dbl x) = g6 x"
| "render (Cnt n) = digits n"
| "render Endl = [CHR 10]"

definition text_of :: "item list \<Rightarrow> string" where
  "text_of xs = concat (map render xs)"

subsection \<open>Reading the sample line back\<close>

text \<open>
  The specification's reader of the export: the file's text is cut into lines at the
  newlines, the sample line into fields at the commas, and each field is read as a
  decimal number with an optional sign, fraction and exponent (as \<open>strtod\<close> reads what
  \<open>%g\<close> writes).
\<close>

fun split_on :: "char \<Rightarrow> string \<Rightarrow> string list" where
  "split_on d [] = [[]]"
| "split_on d (c # cs) =
     (if c = d then [] # split_on d cs
      else (case split_on d cs of f # fs \<Rightarrow> (c # f) # fs | [] \<Rightarrow> [[c]]))"

definition join_commas :: "string list \<Rightarrow> string" where
  "join_commas fs = (case fs of [] \<Rightarrow> [] | f # gs \<Rightarrow> f @ concat (map (\<lambda>g. CHR '','' # g) gs))"

definition digit_of :: "char \<Rightarrow> nat option" where
  "digit_of c =
     (let k = (of_char c :: nat) in if 48 \<le> k \<and> k \<le> 57 then Some (k - 48) else None)"

fun nat_of_digits :: "nat \<Rightarrow> string \<Rightarrow> nat option" where
  "nat_of_digits acc [] = Some acc"
| "nat_of_digits acc (c # cs) =
     (case digit_of c of None \<Rightarrow> None | Some d \<Rightarrow> nat_of_digits (10 * acc + d) cs)"

definition parse_nat :: "string \<Rightarrow> nat option" where
  "parse_nat s = (if s = [] then None else nat_of_digits 0 s)"

definition parse_exponent :: "string \<Rightarrow> int option" where
  "parse_exponent s =
     (case s of
        [] \<Rightarrow> Some 0
      | c # r \<Rightarrow>
          (if c \<noteq> CHR ''e'' then None
           else (case r of
                   [] \<Rightarrow> None
                 | sg # ds \<Rightarrow>
                     if sg = CHR ''-'' then map_option (\<lambda>k. - int k) (parse_nat ds)
                     else if sg = CHR ''+'' then map_option int (parse_nat ds)
                     else map_option int (parse_nat r))))"

definition parse_mantissa :: "string \<Rightarrow> real option" where
  "parse_mantissa s =
     (let ip = takeWhile (\<lambda>c. c \<noteq> CHR ''.'') s; rest = dropWhile (\<lambda>c. c \<noteq> CHR ''.'') s
      in case parse_nat ip of
           None \<Rightarrow> None
         | Some i \<Rightarrow>
             (case rest of
                [] \<Rightarrow> Some (real i)
              | dot # fp \<Rightarrow> map_option (\<lambda>f. real i + real f / 10 ^ length fp) (parse_nat fp)))"

definition parse_double :: "string \<Rightarrow> real option" where
  "parse_double s =
     (let (neg, body) = (case s of [] \<Rightarrow> (False, s) | c # r \<Rightarrow> if c = CHR ''-'' then (True, r) else (False, s));
          mant = takeWhile (\<lambda>c. c \<noteq> CHR ''e'') body;
          ex = dropWhile (\<lambda>c. c \<noteq> CHR ''e'') body
      in case (parse_mantissa mant, parse_exponent ex) of
           (Some m, Some k) \<Rightarrow> Some ((if neg then - m else m) * 10 powi k)
         | _ \<Rightarrow> None)"

definition parse_line :: "string \<Rightarrow> real option list" where
  "parse_line l = map parse_double (split_on (CHR '','') l)"

text \<open>The third line of the text of the file at a path, when the file has one.\<close>

definition third_line :: "string \<Rightarrow> world \<Rightarrow> string option" where
  "third_line p w =
     (case files w p of
        None \<Rightarrow> None
      | Some items \<Rightarrow>
          (let ls = split_on (CHR 10) (text_of items) in if 2 < length ls then Some (ls ! 2) else None))"

section \<open>Properties\<close>

subsection \<open>The statistics\<close>

lemma accumulate_sum: "accumulate xs a = a + sum_list xs"
  unfolding accumulate_def by (induction xs arbitrary: a) (simp_all add: add.assoc)

lemma inner_product_self: "inner_product xs xs a = a + (\<Sum>x\<leftarrow>xs. x * x)"
  unfolding inner_product_def by (induction xs arbitrary: a) (simp_all add: add.assoc)

lemma minmax_scan_inv:
  assumes "drop i xs = ys" "lo < i" "hi < i" "i \<le> length xs"
    "\<forall>j<i. xs ! lo \<le> xs ! j" "\<forall>j<i. xs ! j \<le> xs ! hi"
  shows "fst (minmax_scan xs i lo hi ys) < length xs \<and> snd (minmax_scan xs i lo hi ys) < length xs
       \<and> (\<forall>j<length xs. xs ! fst (minmax_scan xs i lo hi ys) \<le> xs ! j)
       \<and> (\<forall>j<length xs. xs ! j \<le> xs ! snd (minmax_scan xs i lo hi ys))"
  using assms
proof (induction ys arbitrary: i lo hi)
  case Nil
  then have "i = length xs" by simp
  with Nil show ?case by simp
next
  case (Cons y ys)
  have i: "i < length xs"
  proof (rule ccontr)
    assume "\<not> i < length xs"
    then have "drop i xs = []" by simp
    with Cons.prems(1) show False by simp
  qed
  from Cons_nth_drop_Suc[OF i] Cons.prems(1)
  have y: "y = xs ! i" and d: "drop (Suc i) xs = ys" by simp_all
  let ?lo = "if y < xs ! lo then i else lo"
  let ?hi = "if y < xs ! hi then hi else i"
  have "?lo < Suc i" "?hi < Suc i" using Cons.prems by auto
  moreover have "\<forall>j<Suc i. xs ! ?lo \<le> xs ! j"
    using Cons.prems(5) y by (auto simp: less_Suc_eq intro: order_trans less_imp_le)
  moreover have "\<forall>j<Suc i. xs ! j \<le> xs ! ?hi"
    using Cons.prems(6) y by (auto simp: less_Suc_eq intro: order_trans)
  ultimately show ?case
    using Cons.IH[OF d, of ?lo ?hi] i by simp
qed


lemma minmax_element_nonempty:
  assumes "xs \<noteq> []"
  shows "deref xs (fst (minmax_element xs)) = Returns (Min (set xs))"
    and "deref xs (snd (minmax_element xs)) = Returns (Max (set xs))"
proof -
  let ?r = "minmax_scan xs 1 0 0 (tl xs)"
  from assms have len: "0 < length xs" by simp
  have inv: "fst ?r < length xs \<and> snd ?r < length xs
       \<and> (\<forall>j<length xs. xs ! fst ?r \<le> xs ! j) \<and> (\<forall>j<length xs. xs ! j \<le> xs ! snd ?r)"
    using assms len by (intro minmax_scan_inv) (simp_all add: drop_Suc Suc_le_eq)
  have "xs ! fst ?r = Min (set xs)"
  proof (rule sym, rule Min_eqI)
    show "finite (set xs)" by simp
    show "\<And>y. y \<in> set xs \<Longrightarrow> xs ! fst ?r \<le> y" using inv by (auto simp: in_set_conv_nth)
    show "xs ! fst ?r \<in> set xs" using inv by simp
  qed
  moreover have "xs ! snd ?r = Max (set xs)"
  proof (rule sym, rule Max_eqI)
    show "finite (set xs)" by simp
    show "\<And>y. y \<in> set xs \<Longrightarrow> y \<le> xs ! snd ?r" using inv by (auto simp: in_set_conv_nth)
    show "xs ! snd ?r \<in> set xs" using inv by simp
  qed
  ultimately show "deref xs (fst (minmax_element xs)) = Returns (Min (set xs))"
    and "deref xs (snd (minmax_element xs)) = Returns (Max (set xs))"
    using assms inv by (simp_all add: deref_def minmax_element_def)
qed

lemma standardDeviation_nonempty:
  assumes "timeDiff t \<noteq> []"
  shows "standardDeviation t =
    Returns (sqrt ((\<Sum>x\<leftarrow>timeDiff t. (x - sum_list (timeDiff t) / real (length (timeDiff t)))\<^sup>2)
                   / real (length (timeDiff t))))"
  using assms
  by (simp add: standardDeviation_def accumulate_sum inner_product_self fdiv_def comp_def power2_eq_square Let_def)

lemma statistics_nonempty:
  assumes "timeDiff t \<noteq> []"
  shows "statistics t = Returns
    \<lparr>totalTime = sum_list (timeDiff t),
     avgTime = sum_list (timeDiff t) / real (length (timeDiff t)),
     stdDev = sqrt ((\<Sum>x\<leftarrow>timeDiff t. (x - sum_list (timeDiff t) / real (length (timeDiff t)))\<^sup>2)
                   / real (length (timeDiff t))),
     minTime = Min (set (timeDiff t)),
     maxTime = Max (set (timeDiff t))\<rparr>"
  using assms
  by (simp add: statistics_def accumulate_sum fdiv_def standardDeviation_nonempty minmax_element_nonempty Let_def)

lemma statistics_empty: "timeDiff t = [] \<Longrightarrow> statistics t = Undefined Division_by_zero"
  by (simp add: statistics_def fdiv_def Let_def)

lemma reportStats_nonempty:
  assumes "timeDiff t \<noteq> []"
  shows "reportStats t os = Returns (puts (report_items (name t) (length (timeDiff t))
    \<lparr>totalTime = sum_list (timeDiff t),
     avgTime = sum_list (timeDiff t) / real (length (timeDiff t)),
     stdDev = sqrt ((\<Sum>x\<leftarrow>timeDiff t. (x - sum_list (timeDiff t) / real (length (timeDiff t)))\<^sup>2)
                   / real (length (timeDiff t))),
     minTime = Min (set (timeDiff t)),
     maxTime = Max (set (timeDiff t))\<rparr>) os)"
  by (simp add: reportStats_def statistics_nonempty[OF assms])

lemma reportStats_empty: "timeDiff t = [] \<Longrightarrow> reportStats t os = Undefined Division_by_zero"
  by (simp add: reportStats_def statistics_empty)

subsection \<open>The conversion of a tick count\<close>

lemma bit_length_le: "n < 2 ^ k \<Longrightarrow> bit_length n \<le> k"
proof (induction n arbitrary: k rule: bit_length.induct)
  case (1 n)
  show ?case
  proof (cases "n = 0")
    case True
    then show ?thesis by (subst bit_length.simps) simp
  next
    case False
    with "1.prems" obtain j where k: "k = Suc j" by (cases k) auto
    with "1.prems" have "n div 2 < 2 ^ j" by simp
    from "1.IH"[OF False this] False k show ?thesis by (subst bit_length.simps) simp
  qed
qed

lemma to_double_exact:
  assumes "\<bar>n\<bar> < 9007199254740992"
  shows "to_double n = real_of_int n"
proof -
  have "nat \<bar>n\<bar> < 2 ^ 53" using assms by simp
  then have "bit_length (nat \<bar>n\<bar>) - 53 = 0" using bit_length_le by simp
  then have "to_double n = real_of_int (sgn n) * real (nat \<bar>n\<bar>)"
    by (simp add: to_double_def)
  also have "\<dots> = real_of_int (sgn n * \<bar>n\<bar>)" by simp
  also have "sgn n * \<bar>n\<bar> = n" by (simp add: mult_sgn_abs)
  finally show ?thesis .
qed

lemma bit_length_gt: "2 ^ k \<le> n \<Longrightarrow> k < bit_length n"
proof (induction n arbitrary: k rule: bit_length.induct)
  case (1 n)
  from "1.prems" have n: "n \<noteq> 0" by (cases "n = 0") simp_all
  show ?case
  proof (cases k)
    case 0
    with n show ?thesis by (subst bit_length.simps) simp
  next
    case (Suc j)
    with "1.prems" have "2 ^ j \<le> n div 2" by simp
    from "1.IH"[OF n this] n Suc show ?thesis by (subst bit_length.simps) simp
  qed
qed

lemma bit_length_eq: "2 ^ k \<le> n \<Longrightarrow> n < 2 ^ Suc k \<Longrightarrow> bit_length n = Suc k"
  using bit_length_gt[of k n] bit_length_le[of n "Suc k"] by simp

lemma bit_length_epoch: "bit_length 1793341540139183421 = 61"
proof -
  have "bit_length 1793341540139183421 = Suc 60" by (rule bit_length_eq) simp_all
  then show ?thesis by simp
qed

lemma to_double_epoch: "to_double 1793341540139183421 = 1793341540139183360"
  by (simp add: to_double_def bit_length_epoch)

lemma to_double_small: "to_double 7 = 7" "to_double 10 = 10" "to_double 20 = 20"
  by (simp_all add: to_double_exact)

subsection \<open>The armed flag\<close>

lemma startTimer_unarmed:
  "\<not> activeTimer t \<Longrightarrow> startTimer now (t, w) = (t\<lparr>startTime := now\<rparr>, w)"
  by (simp add: startTimer_def)

lemma startTimer_armed:
  "activeTimer t \<Longrightarrow>
     startTimer now (t, w)
       = (t, w\<lparr>cout := cout w @ [Str (name t), Str ''::timer is already active. No action taken'']\<rparr>)"
  by (simp add: startTimer_def)

lemma exec_keeps_unarmed:
  assumes "exec c (t, w) = Returns (t', w')" "\<not> activeTimer t"
  shows "\<not> activeTimer t'"
proof (cases c)
  case (StartTimer now)
  with assms show ?thesis by (auto simp: startTimer_def)
next
  case (StopTimer now)
  with assms show ?thesis by (auto simp: stopTimer_def)
next
  case ReportStats
  with assms show ?thesis
    by (cases "reportStats t \<lparr>good = True, written = cout w\<rparr>") auto
next
  case (SaveTimingData p)
  with assms show ?thesis
    by (cases "saveTimingData p t w") auto
qed

lemma run_keeps_unarmed:
  "run cs (t, w) = Returns (t', w') \<Longrightarrow> \<not> activeTimer t \<Longrightarrow> \<not> activeTimer t'"
proof (induction cs arbitrary: t w)
  case Nil
  then show ?case by simp
next
  case (Cons c cs)
  show ?case
  proof (cases "exec c (t, w)")
    case (Returns s)
    obtain t1 w1 where s: "s = (t1, w1)" by (cases s)
    from Returns s Cons.prems(2) have "\<not> activeTimer t1"
      using exec_keeps_unarmed by blast
    moreover from Cons.prems(1) Returns s have "run cs (t1, w1) = Returns (t', w')" by simp
    ultimately show ?thesis using Cons.IH by blast
  next
    case (Fails e)
    with Cons.prems(1) show ?thesis by simp
  next
    case (Undefined u)
    with Cons.prems(1) show ?thesis by simp
  qed
qed

text \<open>
  C10. In every state that a sequence of calls of \<open>startTimer\<close>, \<open>stopTimer\<close>,
  \<open>reportStats\<close> and \<open>saveTimingData\<close> reaches from a newly constructed timer,
  \<open>_activeTimer\<close> is false; there every \<open>startTimer\<close> takes the branch that overwrites
  the start mark and prints nothing, and every \<open>stopTimer\<close> appends exactly one sample.
\<close>

theorem activeTimer_always_false:
  assumes "run cs (new_PerfTimer n, w0) = Returns (t, w)"
  shows "\<not> activeTimer t
       \<and> startTimer now (t, w) = (t\<lparr>startTime := now\<rparr>, w)
       \<and> timeDiff (stopTimer now t) = timeDiff t @ [to_double (now - startTime t)]
       \<and> length (timeDiff (stopTimer now t)) = Suc (length (timeDiff t))"
proof -
  have "\<not> activeTimer (new_PerfTimer n)" by (simp add: new_PerfTimer_def)
  with assms have "\<not> activeTimer t" by (rule run_keeps_unarmed)
  then show ?thesis by (simp add: startTimer_unarmed stopTimer_def)
qed

theorem activeTimer_always_false_witness:
  "run [StartTimer 10, StartTimer 20, StopTimer 30] (new_PerfTimer ''t'', world0)
     = Returns (\<lparr>startTime = 20, timeDiff = [10], activeTimer = False, name = ''t''\<rparr>, world0)
   \<and> startTimer 40 (\<lparr>startTime = 20, timeDiff = [10], activeTimer = False, name = ''t''\<rparr>, world0)
     = (\<lparr>startTime = 40, timeDiff = [10], activeTimer = False, name = ''t''\<rparr>, world0)
   \<and> timeDiff (stopTimer 40 \<lparr>startTime = 20, timeDiff = [10], activeTimer = False, name = ''t''\<rparr>)
     = [10, 20]"
proof -
  have r: "run [StartTimer 10, StartTimer 20, StopTimer 30] (new_PerfTimer ''t'', world0)
     = Returns (\<lparr>startTime = 20, timeDiff = [10], activeTimer = False, name = ''t''\<rparr>, world0)"
    by (simp add: startTimer_def stopTimer_def new_PerfTimer_def to_double_small)
  from activeTimer_always_false[OF r, of 40] r show ?thesis by (simp add: to_double_small)
qed

text \<open>
  C1. \<open>startTimer\<close> on a newly constructed (unarmed) timer records the time stamp, and
  leaves \<open>_activeTimer\<close> false: the flag is not true between the start and its stop.
\<close>

theorem startTimer_does_not_arm:
  "startTimer 5 (new_PerfTimer ''t'', world0)
     = (\<lparr>startTime = 5, timeDiff = [], activeTimer = False, name = ''t''\<rparr>, world0)"
  by (simp add: startTimer_def new_PerfTimer_def)

text \<open>
  C8. A second \<open>startTimer\<close> between a start and its stop overwrites the start mark and
  prints no diagnostic: after starts at 10 and at 20, the stop at 30 records 10 ticks, the
  time since the later start.
\<close>

theorem second_start_overwrites:
  "run [StartTimer 10, StartTimer 20, StopTimer 30] (new_PerfTimer ''t'', world0)
     = Returns (\<lparr>startTime = 20, timeDiff = [10], activeTimer = False, name = ''t''\<rparr>, world0)"
  by (simp add: startTimer_def stopTimer_def new_PerfTimer_def to_double_small)

text \<open>
  C2, as the code has it. \<open>stopTimer\<close> on a timer that is not armed does not fail: the
  call returns, one sample is appended and the timer stays unarmed. The sample is the
  difference between the time of the call and the recorded start mark, converted to
  \<open>double\<close>: the difference itself when it is below \<open>2\<^sup>5\<^sup>3\<close> ticks in magnitude, and in
  general the \<open>double\<close> nearest to it.
\<close>

theorem stopTimer_unarmed_appends:
  assumes "\<not> activeTimer t"
  shows "exec (StopTimer now) (t, w)
           = Returns (t\<lparr>timeDiff := timeDiff t @ [to_double (now - startTime t)]\<rparr>, w)
       \<and> (\<bar>now - startTime t\<bar> < 9007199254740992
            \<longrightarrow> to_double (now - startTime t) = real_of_int (now - startTime t))"
  using assms by (simp add: stopTimer_def to_double_exact)

theorem stopTimer_unarmed_appends_witness:
  "\<not> activeTimer (new_PerfTimer ''t'')
   \<and> \<bar>7 - startTime (new_PerfTimer ''t'')\<bar> < 9007199254740992
   \<and> exec (StopTimer 7) (new_PerfTimer ''t'', world0)
       = Returns (\<lparr>startTime = 0, timeDiff = [7], activeTimer = False, name = ''t''\<rparr>, world0)
   \<and> exec (StopTimer 1793341540139183421) (new_PerfTimer ''t'', world0)
       = Returns (\<lparr>startTime = 0, timeDiff = [1793341540139183360], activeTimer = False,
                   name = ''t''\<rparr>, world0)"
proof -
  have h: "\<not> activeTimer (new_PerfTimer ''t'')" by (simp add: new_PerfTimer_def)
  have b: "\<bar>7 - startTime (new_PerfTimer ''t'')\<bar> < 9007199254740992"
    by (simp add: new_PerfTimer_def)
  from stopTimer_unarmed_appends[OF h, of 7 world0] b
  have "exec (StopTimer 7) (new_PerfTimer ''t'', world0)
       = Returns (\<lparr>startTime = 0, timeDiff = [7], activeTimer = False, name = ''t''\<rparr>, world0)"
    by (simp add: new_PerfTimer_def)
  moreover from stopTimer_unarmed_appends[OF h, of 1793341540139183421 world0]
  have "exec (StopTimer 1793341540139183421) (new_PerfTimer ''t'', world0)
       = Returns (\<lparr>startTime = 0, timeDiff = [1793341540139183360], activeTimer = False,
                   name = ''t''\<rparr>, world0)"
    by (simp add: new_PerfTimer_def to_double_epoch)
  ultimately show ?thesis using h b by simp
qed

theorem stopTimer_unarmed_counterexample:
  "exec (StopTimer 7) (new_PerfTimer ''t'', world0) \<noteq> Fails InvalidState
   \<and> exec (StopTimer 7) (new_PerfTimer ''t'', world0)
       = Returns (\<lparr>startTime = 0, timeDiff = [7], activeTimer = False, name = ''t''\<rparr>, world0)"
  by (simp add: stopTimer_def new_PerfTimer_def to_double_small)

subsection \<open>Unit selection\<close>

text \<open>
  C7. \<open>_converter\<close> picks the tier by the fixed thresholds, each bound included in the
  lower tier: up to 1.0E3 the value stays in nanoseconds, unscaled (so exactly 1.0E3
  does); above 1.0E3 and up to 1.0E6 microseconds, scaled by 1e-3; up to 1.0E9
  milliseconds, by 1e-6; up to 6.0E11 seconds, by 1e-9; up to 1.08E13 minutes, by
  1e-9/60; hours otherwise, by 1e-9/3600.
\<close>

theorem converter_tiers:
  "(time \<le> 1000 \<longrightarrow> converter time = (time, ''ns''))
   \<and> (1000 < time \<and> time \<le> 1000000 \<longrightarrow> converter time = (time * (1 / 1000), micro_s))
   \<and> (1000000 < time \<and> time \<le> 1000000000 \<longrightarrow> converter time = (time * (1 / 1000000), ''ms''))
   \<and> (1000000000 < time \<and> time \<le> 600000000000
        \<longrightarrow> converter time = (time * (1 / 1000000000), ''s''))
   \<and> (600000000000 < time \<and> time \<le> 10800000000000
        \<longrightarrow> converter time = (time * ((1 / 1000000000) / 60), ''mins''))
   \<and> (10800000000000 < time \<longrightarrow> converter time = (time * ((1 / 1000000000) / 3600), ''hrs''))
   \<and> converter 1000 = (1000, ''ns'')"
  by (simp add: converter_def)

theorem converter_tiers_witness:
  "converter 1000 = (1000, ''ns'')
   \<and> converter 1001 = (1001 / 1000, micro_s)
   \<and> converter 2000000 = (2, ''ms'')
   \<and> converter 3000000000 = (3, ''s'')
   \<and> converter 6000000000000 = (100, ''mins'')
   \<and> converter 36000000000000 = (10, ''hrs'')"
  using converter_tiers[of 1000] converter_tiers[of 1001] converter_tiers[of 2000000]
    converter_tiers[of 3000000000] converter_tiers[of 6000000000000]
    converter_tiers[of 36000000000000]
  by simp

subsection \<open>The report\<close>

lemma sqrt_20000_3_bounds: "8164 / 100 < sqrt (20000 / 3)" "sqrt (20000 / 3) < 8166 / 100"
proof -
  have "(8164 / 100 :: real)\<^sup>2 < 20000 / 3" by (simp add: power2_eq_square)
  then show "8164 / 100 < sqrt (20000 / 3)" by (rule real_less_rsqrt)
  have "(20000 / 3 :: real) < (8166 / 100)\<^sup>2" by (simp add: power2_eq_square)
  then show "sqrt (20000 / 3) < 8166 / 100" by (intro real_less_lsqrt) simp_all
qed

text \<open>
  C6. On a non-empty sample sequence the statistics of \<open>reportStats\<close> are: the total
  is the sum of the samples, the mean is the total divided by the count, the standard
  deviation is the population standard deviation (the sum of the squared deviations from
  the mean is divided by the count), and the minimum and maximum are the extrema; the
  count that is printed is the length. For the samples 100, 200, 300 the report shows
  3 trials, total 600, mean 200, standard deviation \<open>sqrt (20000 / 3)\<close>, which lies
  between 81.64 and 81.66, minimum 100 and maximum 300, all in nanoseconds.
\<close>

theorem reportStats_statistics:
  assumes "timeDiff t \<noteq> []"
  shows "statistics t = Returns
           \<lparr>totalTime = sum_list (timeDiff t),
            avgTime = sum_list (timeDiff t) / real (length (timeDiff t)),
            stdDev = sqrt ((\<Sum>x\<leftarrow>timeDiff t.
                              (x - sum_list (timeDiff t) / real (length (timeDiff t)))\<^sup>2)
                           / real (length (timeDiff t))),
            minTime = Min (set (timeDiff t)),
            maxTime = Max (set (timeDiff t))\<rparr>
       \<and> (\<exists>s. statistics t = Returns s
              \<and> reportStats t os
                  = Returns (puts (report_items (name t) (length (timeDiff t)) s) os))
       \<and> (timeDiff t = [100, 200, 300] \<longrightarrow>
            reportStats t os = Returns (puts
              [Str ''Timer name: '', Str (name t), Endl, Str ''  '',
               Str ''Number of trials: '', Cnt 3, Str '', '',
               Str ''Total time: '', Dbl 600, Str ''ns'', Str '', '',
               Str ''Average Time: '', Dbl 200, Str ''ns'', Str '', '',
               Str ''Standard Deviation: '', Dbl (sqrt (20000 / 3)), Str ''ns'', Str '', '',
               Str ''Fastest Run: '', Dbl 100, Str ''ns'', Str '', '',
               Str ''Slowest Run: '', Dbl 300, Str ''ns'', Endl] os)
            \<and> 8164 / 100 < sqrt (20000 / 3 :: real) \<and> sqrt (20000 / 3 :: real) < 8166 / 100)"
proof (intro conjI impI)
  show "statistics t = Returns
           \<lparr>totalTime = sum_list (timeDiff t),
            avgTime = sum_list (timeDiff t) / real (length (timeDiff t)),
            stdDev = sqrt ((\<Sum>x\<leftarrow>timeDiff t.
                              (x - sum_list (timeDiff t) / real (length (timeDiff t)))\<^sup>2)
                           / real (length (timeDiff t))),
            minTime = Min (set (timeDiff t)),
            maxTime = Max (set (timeDiff t))\<rparr>"
    using assms by (rule statistics_nonempty)
  show "\<exists>s. statistics t = Returns s
              \<and> reportStats t os
                  = Returns (puts (report_items (name t) (length (timeDiff t)) s) os)"
    using statistics_nonempty[OF assms] by (simp add: reportStats_def)
next
  assume xs: "timeDiff t = [100, 200, 300]"
  have le: "sqrt (20000 / 3) \<le> (1000 :: real)"
    using sqrt_20000_3_bounds(2) by simp
  have "reportStats t os = Returns (puts (report_items (name t) 3
          \<lparr>totalTime = 600, avgTime = 200, stdDev = sqrt (20000 / 3),
           minTime = 100, maxTime = 300\<rparr>) os)"
    using reportStats_nonempty[of t os] xs by (simp add: numeral_3_eq_3)
  also have "report_items (name t) 3
          \<lparr>totalTime = 600, avgTime = 200, stdDev = sqrt (20000 / 3),
           minTime = 100, maxTime = 300\<rparr> =
              [Str ''Timer name: '', Str (name t), Endl, Str ''  '',
               Str ''Number of trials: '', Cnt 3, Str '', '',
               Str ''Total time: '', Dbl 600, Str ''ns'', Str '', '',
               Str ''Average Time: '', Dbl 200, Str ''ns'', Str '', '',
               Str ''Standard Deviation: '', Dbl (sqrt (20000 / 3)), Str ''ns'', Str '', '',
               Str ''Fastest Run: '', Dbl 100, Str ''ns'', Str '', '',
               Str ''Slowest Run: '', Dbl 300, Str ''ns'', Endl]"
    using le by (simp add: report_items_def converter_def)
  finally show "reportStats t os = Returns (puts
              [Str ''Timer name: '', Str (name t), Endl, Str ''  '',
               Str ''Number of trials: '', Cnt 3, Str '', '',
               Str ''Total time: '', Dbl 600, Str ''ns'', Str '', '',
               Str ''Average Time: '', Dbl 200, Str ''ns'', Str '', '',
               Str ''Standard Deviation: '', Dbl (sqrt (20000 / 3)), Str ''ns'', Str '', '',
               Str ''Fastest Run: '', Dbl 100, Str ''ns'', Str '', '',
               Str ''Slowest Run: '', Dbl 300, Str ''ns'', Endl] os)" .
  show "8164 / 100 < sqrt (20000 / 3 :: real)" by (rule sqrt_20000_3_bounds)
  show "sqrt (20000 / 3 :: real) < 8166 / 100" by (rule sqrt_20000_3_bounds)
qed


theorem reportStats_statistics_witness:
  "timeDiff \<lparr>startTime = 0, timeDiff = [100, 200, 300], activeTimer = False, name = ''t''\<rparr> \<noteq> []
   \<and> statistics \<lparr>startTime = 0, timeDiff = [100, 200, 300], activeTimer = False, name = ''t''\<rparr>
       = Returns \<lparr>totalTime = 600, avgTime = 200, stdDev = sqrt (20000 / 3),
                  minTime = 100, maxTime = 300\<rparr>
   \<and> reportStats \<lparr>startTime = 0, timeDiff = [100, 200, 300], activeTimer = False, name = ''t''\<rparr>
         \<lparr>good = True, written = []\<rparr>
       = Returns \<lparr>good = True, written =
              [Str ''Timer name: '', Str ''t'', Endl, Str ''  '',
               Str ''Number of trials: '', Cnt 3, Str '', '',
               Str ''Total time: '', Dbl 600, Str ''ns'', Str '', '',
               Str ''Average Time: '', Dbl 200, Str ''ns'', Str '', '',
               Str ''Standard Deviation: '', Dbl (sqrt (20000 / 3)), Str ''ns'', Str '', '',
               Str ''Fastest Run: '', Dbl 100, Str ''ns'', Str '', '',
               Str ''Slowest Run: '', Dbl 300, Str ''ns'', Endl]\<rparr>"
proof -
  let ?t = "\<lparr>startTime = 0, timeDiff = [100, 200, 300], activeTimer = False, name = ''t''\<rparr>"
  have h: "timeDiff ?t \<noteq> []" by simp
  from reportStats_statistics[OF h, of "\<lparr>good = True, written = []\<rparr>"]
  show ?thesis by (simp add: put_def)
qed

text \<open>
  C3. On a newly constructed timer, whose sample sequence is empty, \<open>reportStats\<close> does
  not fail with \<open>NoSamples\<close>: the mean divides by the count zero, and the extrema that
  lines 176 and 177 dereference are the end iterator of the empty sequence.
\<close>

theorem reportStats_empty_undefined:
  "reportStats (new_PerfTimer ''t'') \<lparr>good = True, written = []\<rparr> = Undefined Division_by_zero
   \<and> fdiv (accumulate (timeDiff (new_PerfTimer ''t'')) 0)
          (real (length (timeDiff (new_PerfTimer ''t'')))) = Undefined Division_by_zero
   \<and> deref (timeDiff (new_PerfTimer ''t'')) (fst (minmax_element (timeDiff (new_PerfTimer ''t''))))
       = Undefined Deref_end_iterator
   \<and> deref (timeDiff (new_PerfTimer ''t'')) (snd (minmax_element (timeDiff (new_PerfTimer ''t''))))
       = Undefined Deref_end_iterator"
  by (simp add: reportStats_def statistics_def fdiv_def deref_def minmax_element_def
      new_PerfTimer_def)

subsection \<open>Decimal digits\<close>

lemma digit_char_eval:
  "digit_char 0 = CHR ''0''" "digit_char 1 = CHR ''1''" "digit_char 2 = CHR ''2''"
  "digit_char 3 = CHR ''3''" "digit_char 4 = CHR ''4''" "digit_char 5 = CHR ''5''"
  "digit_char 6 = CHR ''6''" "digit_char 7 = CHR ''7''" "digit_char 8 = CHR ''8''"
  "digit_char 9 = CHR ''9''" "digit_char (Suc 0) = CHR ''1''"
  by (code_simp+)

lemma of_char_digit_char: "d < 10 \<Longrightarrow> (of_char (digit_char d) :: nat) = 48 + d"
  by (simp add: digit_char_def)

lemma digit_of_digit_char: "d < 10 \<Longrightarrow> digit_of (digit_char d) = Some d"
  by (simp add: digit_of_def of_char_digit_char)

lemma digit_char_not:
  assumes "d < 10" "(of_char c :: nat) < 48 \<or> 57 < (of_char c :: nat)"
  shows "digit_char d \<noteq> c"
  using assms of_char_digit_char[of d] by auto

lemma digits_nonempty: "digits n \<noteq> []"
  by (subst digits.simps) simp

lemma digits_chars: "c \<in> set (digits n) \<Longrightarrow> \<exists>d<10. c = digit_char d"
proof (induction n rule: digits.induct)
  case (1 n)
  show ?case
  proof (cases "n < 10")
    case True
    with "1.prems" show ?thesis by (subst (asm) digits.simps) auto
  next
    case False
    from "1.prems" have "c \<in> set (digits (n div 10)) \<or> c = digit_char (n mod 10)"
      using False by (subst (asm) digits.simps) auto
    then show ?thesis
    proof
      assume "c \<in> set (digits (n div 10))"
      with "1.IH"[OF False] show ?thesis .
    next
      assume "c = digit_char (n mod 10)"
      moreover have "n mod 10 < 10" by simp
      ultimately show ?thesis by blast
    qed
  qed
qed

lemma digits_free_of:
  assumes "(of_char c :: nat) < 48 \<or> 57 < (of_char c :: nat)"
  shows "c \<notin> set (digits n)"
  using digits_chars digit_char_not[OF _ assms] by blast

lemma nat_of_digits_append:
  "nat_of_digits acc (xs @ ys) =
     (case nat_of_digits acc xs of None \<Rightarrow> None | Some a \<Rightarrow> nat_of_digits a ys)"
  by (induction xs arbitrary: acc) (simp_all split: option.splits)

lemma nat_of_digits_digits: "nat_of_digits 0 (digits n) = Some n"
proof (induction n rule: digits.induct)
  case (1 n)
  show ?case
  proof (cases "n < 10")
    case True
    then show ?thesis by (subst digits.simps) (simp add: digit_of_digit_char)
  next
    case False
    have "n mod 10 < 10" by simp
    with "1.IH"[OF False] False show ?thesis
      by (subst digits.simps) (simp add: nat_of_digits_append digit_of_digit_char)
  qed
qed

lemma parse_nat_digits: "parse_nat (digits n) = Some n"
  by (simp add: parse_nat_def digits_nonempty nat_of_digits_digits)

lemma takeWhile_all: "c \<notin> set s \<Longrightarrow> takeWhile (\<lambda>x. x \<noteq> c) s = s"
  by (induction s) auto

lemma dropWhile_none: "c \<notin> set s \<Longrightarrow> dropWhile (\<lambda>x. x \<noteq> c) s = []"
  by (induction s) auto

lemma parse_double_digits: "parse_double (digits n) = Some (real n)"
proof -
  have e: "CHR ''e'' \<notin> set (digits n)" by (rule digits_free_of) simp
  have p: "CHR ''.'' \<notin> set (digits n)" by (rule digits_free_of) simp
  have m: "CHR ''-'' \<notin> set (digits n)" by (rule digits_free_of) simp
  obtain c r where cr: "digits n = c # r" using digits_nonempty[of n] by (cases "digits n") auto
  with m have "c \<noteq> CHR ''-''" by auto
  moreover have "parse_mantissa (digits n) = Some (real n)"
    by (simp add: parse_mantissa_def takeWhile_all[OF p] dropWhile_none[OF p] parse_nat_digits)
  moreover have "parse_exponent [] = Some 0" by (simp add: parse_exponent_def)
  ultimately show ?thesis
    using cr takeWhile_all[OF e] dropWhile_none[OF e]
    by (simp add: parse_double_def)
qed

subsection \<open>Lines and fields\<close>

lemma split_on_nonempty: "split_on d s \<noteq> []"
  by (induction s) (auto split: list.splits)

lemma split_on_free: "d \<notin> set s \<Longrightarrow> split_on d s = [s]"
  by (induction s) auto

lemma split_on_append: "d \<notin> set a \<Longrightarrow> split_on d (a @ d # rest) = a # split_on d rest"
  by (induction a) auto

lemma split_on_join_commas:
  assumes "fs \<noteq> []" "\<forall>f\<in>set fs. CHR '','' \<notin> set f"
  shows "split_on (CHR '','') (join_commas fs) = fs"
proof -
  have aux: "\<forall>f\<in>set gs. CHR '','' \<notin> set f \<Longrightarrow> CHR '','' \<notin> set f \<Longrightarrow>
      split_on (CHR '','') (f @ concat (map (\<lambda>g. CHR '','' # g) gs)) = f # gs" for f gs
  proof (induction gs arbitrary: f)
    case Nil
    then show ?case by (simp add: split_on_free)
  next
    case (Cons g gs)
    then show ?case by (simp add: split_on_append)
  qed
  from assms obtain f gs where "fs = f # gs" by (cases fs) auto
  with assms aux[of gs f] show ?thesis by (simp add: join_commas_def)
qed

subsection \<open>The text of a double\<close>

lemma set_strip_zeros: "set (strip_zeros s) \<subseteq> set s"
  unfolding strip_zeros_def using set_dropWhileD[of _ "\<lambda>c. c = CHR ''0''" "rev s"] by auto

lemma strip_zeros_replicate: "strip_zeros (replicate k (CHR ''0'')) = []"
  by (simp add: strip_zeros_def)

lemma set_point: "set (point s) \<subseteq> insert (CHR ''.'') (set s)"
  by (auto simp: point_def)

lemma style_e_chars:
  assumes "c \<in> set (style_e ds e)" "ds \<noteq> []"
  shows "c \<in> set ds \<or> c \<in> {CHR ''.'', CHR ''e'', CHR ''+'', CHR ''-'', CHR ''0''}
         \<or> c \<in> set (digits (nat \<bar>e\<bar>))"
proof -
  have "hd ds \<in> set ds" using assms(2) by simp
  moreover have "set (tl ds) \<subseteq> set ds" using assms(2) by (cases ds) auto
  ultimately show ?thesis
    using assms(1) set_point[of "strip_zeros (tl ds)"] set_strip_zeros[of "tl ds"]
    by (auto simp: style_e_def split: if_splits)
qed

lemma style_f_chars:
  assumes "c \<in> set (style_f ds e)"
  shows "c \<in> set ds \<or> c \<in> {CHR ''.'', CHR ''0''}"
proof (cases "0 \<le> e")
  case True
  with assms have "c \<in> set (take (nat e + 1) ds) \<or> c \<in> set (point (strip_zeros (drop (nat e + 1) ds)))"
    by (simp add: style_f_def)
  then show ?thesis
    using set_point[of "strip_zeros (drop (nat e + 1) ds)"] set_strip_zeros[of "drop (nat e + 1) ds"]
      set_take_subset[of "nat e + 1" ds] set_drop_subset[of "nat e + 1" ds]
    by blast
next
  case False
  with assms have "c = CHR ''0'' \<or> c \<in> set (point (strip_zeros (replicate (nat (- e - 1)) (CHR ''0'') @ ds)))"
    by (simp add: style_f_def)
  then show ?thesis
    using set_point[of "strip_zeros (replicate (nat (- e - 1)) (CHR ''0'') @ ds)"]
      set_strip_zeros[of "replicate (nat (- e - 1)) (CHR ''0'') @ ds"]
    by (auto split: if_splits)
qed

lemma g6_free_of:
  assumes "(of_char c :: nat) < 48 \<or> 57 < (of_char c :: nat)"
    and "c \<notin> {CHR ''.'', CHR ''e'', CHR ''+'', CHR ''-''}"
  shows "c \<notin> set (g6 x)"
proof
  assume in_g6: "c \<in> set (g6 x)"
  have nd: "c \<notin> set (digits k)" for k using assms(1) by (rule digits_free_of)
  have n0: "c \<noteq> CHR ''0''" using assms(1) by auto
  show False
  proof (cases "x = 0")
    case True
    with in_g6 n0 show False by (simp add: g6_def)
  next
    case False
    define e0 where "e0 = decimal_exponent \<bar>x\<bar>"
    define m0 where "m0 = round_half_even (\<bar>x\<bar> * 10 powi (5 - e0))"
    define m where "m = (if m0 = 1000000 then 100000 else m0)"
    define e where "e = (if m0 = 1000000 then e0 + 1 else e0)"
    have g: "g6 x = (if x < 0 then ''-'' else [])
           @ (if e < - 4 \<or> 6 \<le> e then style_e (digits (nat m)) e else style_f (digits (nat m)) e)"
      using False by (simp add: g6_def Let_def e0_def m0_def m_def e_def)
    from in_g6 g assms(2) have "c \<in> set (style_e (digits (nat m)) e) \<or> c \<in> set (style_f (digits (nat m)) e)"
      by (auto split: if_splits)
    then show False
    proof
      assume "c \<in> set (style_e (digits (nat m)) e)"
      from style_e_chars[OF this digits_nonempty] nd n0 assms(2) show False by auto
    next
      assume "c \<in> set (style_f (digits (nat m)) e)"
      from style_f_chars[OF this] nd n0 assms(2) show False by auto
    qed
  qed
qed

lemma digits_small: "n < 10 \<Longrightarrow> digits n = [digit_char n]"
  by (subst digits.simps) simp

lemma digits_times_10: "0 < n \<Longrightarrow> digits (10 * n) = digits n @ [CHR ''0'']"
  by (subst digits.simps) (simp add: digit_char_eval)

lemma digits_times_power: "0 < n \<Longrightarrow> digits (n * 10 ^ k) = digits n @ replicate k (CHR ''0'')"
proof (induction k)
  case 0
  then show ?case by simp
next
  case (Suc k)
  have "n * 10 ^ Suc k = 10 * (n * 10 ^ k)" by simp
  then have "digits (n * 10 ^ Suc k) = digits (10 * (n * 10 ^ k))" by (rule arg_cong)
  also have "\<dots> = digits (n * 10 ^ k) @ [CHR ''0'']" using Suc.prems by (intro digits_times_10) simp
  also have "\<dots> = digits n @ replicate (Suc k) (CHR ''0'')"
    using Suc by (simp add: replicate_append_same)
  finally show ?case .
qed

lemma less_power_length_digits: "n < 10 ^ length (digits n)"
proof (induction n rule: digits.induct)
  case (1 n)
  show ?case
  proof (cases "n < 10")
    case True
    then show ?thesis by (simp add: digits_small)
  next
    case False
    from "1.IH"[OF False] have "n div 10 < 10 ^ length (digits (n div 10))" .
    then have "n < 10 * 10 ^ length (digits (n div 10))" by simp
    moreover have "length (digits n) = Suc (length (digits (n div 10)))"
      using False by (subst digits.simps) simp
    ultimately show ?thesis by simp
  qed
qed

lemma length_digits_le: "n < 10 ^ k \<Longrightarrow> 0 < k \<Longrightarrow> length (digits n) \<le> k"
proof (induction n arbitrary: k rule: digits.induct)
  case (1 n)
  show ?case
  proof (cases "n < 10")
    case True
    with "1.prems" show ?thesis by (simp add: digits_small)
  next
    case False
    from "1.prems" obtain j where k: "k = Suc j" by (cases k) auto
    with False "1.prems" have "0 < j" by (cases j) auto
    moreover from "1.prems" k have "n div 10 < 10 ^ j" by simp
    ultimately have "length (digits (n div 10)) \<le> j" using "1.IH"[OF False] by blast
    moreover have "length (digits n) = Suc (length (digits (n div 10)))"
      using False by (subst digits.simps) simp
    ultimately show ?thesis using k by simp
  qed
qed

lemma round_half_even_of_nat: "round_half_even (real k) = int k"
  by (simp add: round_half_even_def)

lemma g6_small_integer:
  assumes "n < 1000000"
  shows "g6 (real n) = digits n"
proof (cases "n = 0")
  case True
  then show ?thesis by (simp add: g6_def digits_small digit_char_eval)
next
  case False
  define len where "len = length (digits n)"
  define k where "k = 6 - len"
  have len1: "1 \<le> len" using digits_nonempty[of n] by (simp add: len_def Suc_le_eq)
  have len6: "len \<le> 6" using length_digits_le[of n 6] assms by (simp add: len_def)
  have e0: "decimal_exponent \<bar>real n\<bar> = int len - 1"
    using False by (simp add: decimal_exponent_def len_def)
  have pw: "5 - (int len - 1) = int k" using len6 by (simp add: k_def)
  have sc: "\<bar>real n\<bar> * 10 powi (5 - (int len - 1)) = real (n * 10 ^ k)"
    by (simp add: pw)
  have lt: "n * 10 ^ k < 1000000"
  proof -
    have "n * 10 ^ k < 10 ^ len * 10 ^ k"
      using less_power_length_digits[of n] by (simp add: len_def)
    also have "\<dots> = 10 ^ (len + k)" by (simp add: power_add)
    also have "len + k = 6" using len6 by (simp add: k_def)
    finally show ?thesis by simp
  qed
  have ds: "digits (n * 10 ^ k) = digits n @ replicate k (CHR ''0'')"
    using False by (intro digits_times_power) simp
  have m0: "round_half_even (\<bar>real n\<bar> * 10 powi (5 - (int len - 1))) = int (n * 10 ^ k)"
    unfolding sc by (rule round_half_even_of_nat)
  have "g6 (real n) = style_f (digits (n * 10 ^ k)) (int len - 1)"
    using False lt len1 len6 unfolding g6_def e0 Let_def m0
    by (simp del: of_nat_mult of_nat_power)
  also have "\<dots> = digits n"
    using len1 by (simp add: style_f_def ds len_def[symmetric] strip_zeros_replicate point_def nat_diff_distrib)
  finally show ?thesis .
qed

text \<open>
  The exponent of \<open>g6\<close> is the decimal exponent in both of its branches, and \<open>g6\<close> writes
  what \<open>%g\<close> writes on a few values.
\<close>

lemma power_le_digits: "0 < n \<Longrightarrow> 10 ^ (length (digits n) - 1) \<le> n"
proof (induction n rule: digits.induct)
  case (1 n)
  show ?case
  proof (cases "n < 10")
    case True
    with "1.prems" show ?thesis by (simp add: digits_small)
  next
    case False
    then have "0 < n div 10" by simp
    from "1.IH"[OF False this] have "10 ^ (length (digits (n div 10)) - 1) \<le> n div 10" .
    then have "10 * 10 ^ (length (digits (n div 10)) - 1) \<le> n" by simp
    moreover have "length (digits n) = Suc (length (digits (n div 10)))"
      using False by (subst digits.simps) simp
    moreover have "0 < length (digits (n div 10))" using digits_nonempty by simp
    ultimately show ?thesis by (cases "length (digits (n div 10))") simp_all
  qed
qed

lemma floor_log10_eq:
  assumes "10 powi e \<le> a" "a < 10 powi (e + 1)"
  shows "\<lfloor>log 10 a\<rfloor> = e"
proof -
  have pos: "0 < a"
  proof -
    have "(0::real) < 10 powi e" by simp
    with assms(1) show ?thesis by linarith
  qed
  have p1: "10 powr real_of_int e = (10::real) powi e" by (simp add: powr_real_of_int')
  have p2: "10 powr real_of_int (e + 1) = (10::real) powi (e + 1)"
    by (rule powr_real_of_int') simp_all
  have "real_of_int e \<le> log 10 a"
    using pos assms(1) p1 by (simp add: le_log_iff)
  moreover have "log 10 a < real_of_int (e + 1)"
    using pos assms(2) p2 by (simp add: log_less_iff)
  ultimately show ?thesis by (simp add: floor_eq_iff)
qed

lemma decimal_exponent_log:
  assumes "0 < a"
  shows "decimal_exponent a = \<lfloor>log 10 a\<rfloor>"
proof (cases "1 \<le> a")
  case False
  then show ?thesis by (simp add: decimal_exponent_def)
next
  case True
  define n where "n = nat \<lfloor>a\<rfloor>"
  define len where "len = length (digits n)"
  have n: "0 < n" "real n \<le> a" "a < real n + 1" using True by (simp_all add: n_def)
  have len: "0 < len" using digits_nonempty by (simp add: len_def)
  have r1: "real (10 ^ (len - 1)) \<le> real n"
    using power_le_digits[OF n(1)] unfolding len_def[symmetric] by (simp only: of_nat_le_iff)
  have "real (10 ^ (len - 1)) = (10::real) ^ (len - 1)" by simp
  with r1 n(2) have lo: "(10::real) ^ (len - 1) \<le> a" by linarith
  have "n + 1 \<le> 10 ^ len" using less_power_length_digits[of n] by (simp add: len_def)
  then have r2: "real (n + 1) \<le> real (10 ^ len)" by (simp only: of_nat_le_iff)
  have "real (10 ^ len) = (10::real) ^ len" "real (n + 1) = real n + 1" by simp_all
  with r2 n(3) have hi: "a < (10::real) ^ len" by linarith
  have i1: "int len - 1 = int (len - 1)" using len by simp
  have i2: "int len - 1 + 1 = int len" by simp
  have "\<lfloor>log 10 a\<rfloor> = int len - 1"
  proof (rule floor_log10_eq)
    show "10 powi (int len - 1) \<le> a" unfolding i1 using lo by simp
    show "a < 10 powi (int len - 1 + 1)" unfolding i2 using hi by simp
  qed
  then show ?thesis using True by (simp add: decimal_exponent_def n_def len_def)
qed

lemma decimal_exponent_eval:
  assumes "10 powi e \<le> a" "a < 10 powi (e + 1)"
  shows "decimal_exponent a = e"
proof -
  have "(0::real) < 10 powi e" by simp
  with assms(1) have "0 < a" by linarith
  then show ?thesis using floor_log10_eq[OF assms] decimal_exponent_log by simp
qed

lemma g6_examples:
  "g6 (1 / 2) = ''0.5''"
  "g6 (12345 / 10) = ''1234.5''"
  "g6 1000000 = ''1e+06''"
  "g6 (1 / 100000) = ''1e-05''"
  "g6 (- 1234567) = ''-1.23457e+06''"
proof -
  have d: "digits 500000 = ''500000''" "digits 123450 = ''123450''" "digits 100000 = ''100000''"
    "digits 123457 = ''123457''" "digits 5 = ''5''" "digits 6 = ''6''"
    by (simp_all add: digits.simps digit_char_eval)
  have e: "decimal_exponent \<bar>1 / 2\<bar> = - 1" "decimal_exponent \<bar>12345 / 10\<bar> = 3"
    "decimal_exponent \<bar>1000000\<bar> = 6" "decimal_exponent \<bar>1 / 100000\<bar> = - 5"
    "decimal_exponent \<bar>- 1234567\<bar> = 6"
    by (rule decimal_exponent_eval; simp add: power_int_def field_simps)+
  show "g6 (1 / 2) = ''0.5''"
    unfolding g6_def Let_def e
    by (simp add: d round_half_even_def power_int_def style_f_def strip_zeros_def point_def)
  show "g6 (12345 / 10) = ''1234.5''"
    unfolding g6_def Let_def e
    by (simp add: d round_half_even_def power_int_def style_f_def strip_zeros_def point_def)
  show "g6 1000000 = ''1e+06''"
    unfolding g6_def Let_def e
    by (simp add: d round_half_even_def power_int_def style_e_def strip_zeros_def point_def)
  show "g6 (1 / 100000) = ''1e-05''"
    unfolding g6_def Let_def e
    by (simp add: d round_half_even_def power_int_def style_e_def strip_zeros_def point_def)
  show "g6 (- 1234567) = ''-1.23457e+06''"
    unfolding g6_def Let_def e
    by (simp add: d round_half_even_def power_int_def style_e_def strip_zeros_def point_def)
qed

subsection \<open>The export\<close>

lemma puts_good: "good os \<Longrightarrow> puts xs os = os\<lparr>written := written os @ xs\<rparr>"
  by (induction xs arbitrary: os) (simp_all add: put_def)

lemma puts_not_good: "\<not> good os \<Longrightarrow> puts xs os = os"
  by (induction xs arbitrary: os) (simp_all add: put_def)

lemma puts_append: "puts (xs @ ys) os = puts ys (puts xs os)"
  by (induction xs arbitrary: os) simp_all

lemma good_puts: "good (puts xs os) = good os"
  by (cases "good os") (simp_all add: puts_good puts_not_good)

lemma write_rest_in_range:
  "i \<le> length xs \<Longrightarrow>
     write_rest xs i os = Returns (puts (concat (map (\<lambda>x. [Str '','', Dbl x]) (drop i xs))) os)"
proof (induction xs i os rule: write_rest.induct)
  case (1 xs i os)
  show ?case
  proof (cases "i < length xs")
    case True
    then have d: "drop i xs = xs ! i # drop (Suc i) xs" by (simp add: Cons_nth_drop_Suc)
    from True have ix: "index xs i = Returns (xs ! i)" by (simp add: index_def)
    from True have "Suc i \<le> length xs" by simp
    from "1.IH"[OF True ix this] True ix d show ?thesis
      by (subst write_rest.simps) simp
  next
    case False
    with "1.prems" show ?thesis by (subst write_rest.simps) simp
  qed
qed

lemma write_vector_nonempty:
  assumes "timeDiff t \<noteq> []"
  shows "write_vector t os = Returns (puts
           (Dbl (hd (timeDiff t)) # concat (map (\<lambda>x. [Str '','', Dbl x]) (tl (timeDiff t))) @ [Endl]) os)"
proof -
  from assms obtain x xs where xs: "timeDiff t = x # xs" by (cases "timeDiff t") auto
  have "write_rest (x # xs) 1 (put (Dbl x) os)
          = Returns (puts (concat (map (\<lambda>x. [Str '','', Dbl x]) xs)) (put (Dbl x) os))"
    using write_rest_in_range[of 1 "x # xs" "put (Dbl x) os"] by simp
  then show ?thesis
    by (simp add: write_vector_def xs index_def puts_append)
qed

lemma write_vector_empty: "timeDiff t = [] \<Longrightarrow> write_vector t os = Undefined Index_out_of_range"
  by (simp add: write_vector_def index_def)

lemma saveTimingData_empty:
  "timeDiff t = [] \<Longrightarrow> saveTimingData p t w = Undefined Division_by_zero"
  by (simp add: saveTimingData_def reportStats_empty split: option.splits)

lemma saveTimingData_unopened:
  assumes "unopenable w p = Some msg" "timeDiff t \<noteq> []"
  shows "saveTimingData p t w =
     Returns (w\<lparr>cerr := cerr w @ [Str ''PerfTimer output file failed to open. Error: '', Str msg, Endl]\<rparr>)"
  using assms
  by (simp add: saveTimingData_def reportStats_nonempty write_vector_nonempty puts_not_good
      del: puts.simps)

lemma saveTimingData_opened:
  assumes "unopenable w p = None" "timeDiff t \<noteq> []"
  shows "\<exists>s. statistics t = Returns s \<and> saveTimingData p t w =
     Returns (w\<lparr>files := (files w)(p \<mapsto>
                    report_items (name t) (length (timeDiff t)) s
                    @ Dbl (hd (timeDiff t)) # concat (map (\<lambda>x. [Str '','', Dbl x]) (tl (timeDiff t)))
                    @ [Endl]),
                cout := cout w @ [Str ''yes I'm open'', Endl]\<rparr>)"
  using assms statistics_nonempty[OF assms(2)]
  by (simp add: saveTimingData_def reportStats_def write_vector_nonempty puts_good good_puts
      del: puts.simps)

text \<open>
  C4. On a newly constructed timer, whose sample sequence is empty, \<open>saveTimingData\<close>
  does not fail with \<open>NoSamples\<close>: the header is computed first, with the division by
  the count zero of \<open>reportStats\<close>, and the lines that write the samples read element 0
  of the empty sequence, before the test of the size.
\<close>

theorem saveTimingData_empty_undefined:
  "saveTimingData ''out.csv'' (new_PerfTimer ''t'') world0 = Undefined Division_by_zero
   \<and> index (timeDiff (new_PerfTimer ''t'')) 0 = Undefined Index_out_of_range
   \<and> write_vector (new_PerfTimer ''t'') \<lparr>good = True, written = []\<rparr> = Undefined Index_out_of_range"
  by (simp add: saveTimingData_def reportStats_def statistics_def fdiv_def write_vector_def
      index_def new_PerfTimer_def world0_def)

text \<open>
  C5, as the code has it. When the file cannot be opened and there is a sample,
  \<open>saveTimingData\<close> does not fail: it writes the diagnostic to the standard error stream,
  goes on to insert the header and the samples into the stream that did not open, which
  drops them, and returns; no file and nothing else of the environment is changed.
\<close>

theorem saveTimingData_unopened_returns:
  assumes "unopenable w p = Some msg" "timeDiff t \<noteq> []"
  shows "saveTimingData p t w =
     Returns (w\<lparr>cerr := cerr w @ [Str ''PerfTimer output file failed to open. Error: '', Str msg, Endl]\<rparr>)"
  using assms by (rule saveTimingData_unopened)

theorem saveTimingData_unopened_returns_witness:
  "unopenable (world0\<lparr>unopenable := (\<lambda>p. Some ''Permission denied'')\<rparr>) ''/out.csv''
     = Some ''Permission denied''
   \<and> timeDiff \<lparr>startTime = 0, timeDiff = [100], activeTimer = False, name = ''t''\<rparr> \<noteq> []
   \<and> saveTimingData ''/out.csv'' \<lparr>startTime = 0, timeDiff = [100], activeTimer = False, name = ''t''\<rparr>
        (world0\<lparr>unopenable := (\<lambda>p. Some ''Permission denied'')\<rparr>)
      = Returns \<lparr>cout = [],
                 cerr = [Str ''PerfTimer output file failed to open. Error: '',
                         Str ''Permission denied'', Endl],
                 files = (\<lambda>p. None), unopenable = (\<lambda>p. Some ''Permission denied'')\<rparr>"
proof -
  let ?w = "world0\<lparr>unopenable := (\<lambda>p. Some ''Permission denied'')\<rparr>"
  let ?t = "\<lparr>startTime = 0, timeDiff = [100], activeTimer = False, name = ''t''\<rparr>"
  have h1: "unopenable ?w ''/out.csv'' = Some ''Permission denied''" by simp
  have h2: "timeDiff ?t \<noteq> []" by simp
  from saveTimingData_unopened_returns[OF h1 h2] h1 h2 show ?thesis
    by (simp add: world0_def)
qed

theorem saveTimingData_unopened_counterexample:
  "saveTimingData ''/out.csv'' \<lparr>startTime = 0, timeDiff = [100], activeTimer = False, name = ''t''\<rparr>
        (world0\<lparr>unopenable := (\<lambda>p. Some ''Permission denied'')\<rparr>) \<noteq> Fails IOError
   \<and> saveTimingData ''/out.csv'' \<lparr>startTime = 0, timeDiff = [100], activeTimer = False, name = ''t''\<rparr>
        (world0\<lparr>unopenable := (\<lambda>p. Some ''Permission denied'')\<rparr>)
      = Returns \<lparr>cout = [],
                 cerr = [Str ''PerfTimer output file failed to open. Error: '',
                         Str ''Permission denied'', Endl],
                 files = (\<lambda>p. None), unopenable = (\<lambda>p. Some ''Permission denied'')\<rparr>"
proof -
  let ?w = "world0\<lparr>unopenable := (\<lambda>p. Some ''Permission denied'')\<rparr>"
  let ?t = "\<lparr>startTime = 0, timeDiff = [100], activeTimer = False, name = ''t''\<rparr>"
  have h1: "unopenable ?w ''/out.csv'' = Some ''Permission denied''" by simp
  have h2: "timeDiff ?t \<noteq> []" by simp
  from saveTimingData_unopened[OF h1 h2] show ?thesis
    by (simp add: world0_def)
qed

subsection \<open>The text of the exported file\<close>

lemma converter_unit_free_of_newline: "CHR 10 \<notin> set (snd (converter x))"
  by (simp add: converter_def micro_s_def)

lemma g6_free_of_newline: "CHR 10 \<notin> set (g6 x)"
  by (rule g6_free_of) simp_all

lemma g6_free_of_comma: "CHR '','' \<notin> set (g6 x)"
  by (rule g6_free_of) simp_all

lemma digits_free_of_newline: "CHR 10 \<notin> set (digits n)"
  by (rule digits_free_of) simp

lemma text_of_report_items:
  assumes "CHR 10 \<notin> set n"
  shows "\<exists>a b. text_of (report_items n k s) = a @ CHR 10 # b @ [CHR 10]
           \<and> CHR 10 \<notin> set a \<and> CHR 10 \<notin> set b"
proof -
  obtain v1 u1 where c1: "converter (totalTime s) = (v1, u1)" by (cases "converter (totalTime s)")
  obtain v2 u2 where c2: "converter (avgTime s) = (v2, u2)" by (cases "converter (avgTime s)")
  obtain v3 u3 where c3: "converter (stdDev s) = (v3, u3)" by (cases "converter (stdDev s)")
  obtain v4 u4 where c4: "converter (minTime s) = (v4, u4)" by (cases "converter (minTime s)")
  obtain v5 u5 where c5: "converter (maxTime s) = (v5, u5)" by (cases "converter (maxTime s)")
  have u: "CHR 10 \<notin> set u1" "CHR 10 \<notin> set u2" "CHR 10 \<notin> set u3" "CHR 10 \<notin> set u4"
    "CHR 10 \<notin> set u5"
    using converter_unit_free_of_newline[of "totalTime s"] converter_unit_free_of_newline[of "avgTime s"]
      converter_unit_free_of_newline[of "stdDev s"] converter_unit_free_of_newline[of "minTime s"]
      converter_unit_free_of_newline[of "maxTime s"]
    by (simp_all add: c1 c2 c3 c4 c5)
  let ?a = "''Timer name: '' @ n"
  let ?b = "''  Number of trials: '' @ digits k @ '', Total time: '' @ g6 v1 @ u1
            @ '', Average Time: '' @ g6 v2 @ u2 @ '', Standard Deviation: '' @ g6 v3 @ u3
            @ '', Fastest Run: '' @ g6 v4 @ u4 @ '', Slowest Run: '' @ g6 v5 @ u5"
  have "text_of (report_items n k s) = ?a @ CHR 10 # ?b @ [CHR 10]"
    by (simp add: report_items_def text_of_def c1 c2 c3 c4 c5)
  moreover have "CHR 10 \<notin> set ?a" using assms by simp
  moreover have "CHR 10 \<notin> set ?b"
    using u g6_free_of_newline digits_free_of_newline by simp
  ultimately show ?thesis by blast
qed

lemma text_of_append: "text_of (xs @ ys) = text_of xs @ text_of ys"
  by (simp add: text_of_def)

lemma text_of_samples:
  "text_of (Dbl x # concat (map (\<lambda>y. [Str '','', Dbl y]) xs)) = join_commas (map g6 (x # xs))"
proof -
  have "text_of (concat (map (\<lambda>y. [Str '','', Dbl y]) xs)) = concat (map (\<lambda>g. CHR '','' # g) (map g6 xs))"
    by (induction xs) (simp_all add: text_of_def)
  then show ?thesis by (simp add: text_of_def join_commas_def)
qed

lemma join_commas_free_of_newline: "CHR 10 \<notin> set (join_commas (map g6 xs))"
proof (cases xs)
  case Nil
  then show ?thesis by (simp add: join_commas_def)
next
  case (Cons y ys)
  have "CHR 10 \<notin> set (concat (map (\<lambda>g. CHR '','' # g) (map g6 ys)))"
    using g6_free_of_newline by (induction ys) simp_all
  with Cons g6_free_of_newline[of y] show ?thesis by (simp add: join_commas_def)
qed

lemma split_lines_three:
  assumes "d \<notin> set a" "d \<notin> set b" "d \<notin> set c"
  shows "split_on d (a @ d # b @ d # c @ [d]) = [a, b, c, []]"
  using assms by (simp add: split_on_append)

lemma saveTimingData_third_line:
  assumes "unopenable w p = None" "timeDiff t \<noteq> []" "CHR 10 \<notin> set (name t)"
  shows "\<exists>w'. saveTimingData p t w = Returns w'
             \<and> third_line p w' = Some (join_commas (map g6 (timeDiff t)))"
proof -
  from saveTimingData_opened[OF assms(1,2)] obtain s w' where
    w': "saveTimingData p t w = Returns w'"
    and f: "files w' p = Some (report_items (name t) (length (timeDiff t)) s
                    @ Dbl (hd (timeDiff t)) # concat (map (\<lambda>x. [Str '','', Dbl x]) (tl (timeDiff t)))
                    @ [Endl])"
    by auto
  from text_of_report_items[OF assms(3)] obtain a b where
    ab: "text_of (report_items (name t) (length (timeDiff t)) s) = a @ CHR 10 # b @ [CHR 10]"
    and na: "CHR 10 \<notin> set a" and nb: "CHR 10 \<notin> set b"
    by blast
  let ?c = "join_commas (map g6 (timeDiff t))"
  have c: "text_of (Dbl (hd (timeDiff t)) # concat (map (\<lambda>x. [Str '','', Dbl x]) (tl (timeDiff t)))) = ?c"
    using assms(2) text_of_samples[of "hd (timeDiff t)" "tl (timeDiff t)"] by simp
  have "text_of (report_items (name t) (length (timeDiff t)) s
                    @ (Dbl (hd (timeDiff t)) # concat (map (\<lambda>x. [Str '','', Dbl x]) (tl (timeDiff t))))
                    @ [Endl]) = a @ CHR 10 # b @ CHR 10 # ?c @ [CHR 10]"
    unfolding text_of_append ab c by (simp add: text_of_def)
  then have "split_on (CHR 10) (text_of (report_items (name t) (length (timeDiff t)) s
                    @ Dbl (hd (timeDiff t)) # concat (map (\<lambda>x. [Str '','', Dbl x]) (tl (timeDiff t)))
                    @ [Endl])) = [a, b, ?c, []]"
    using split_lines_three[OF na nb join_commas_free_of_newline[of "timeDiff t"]] by simp
  then have "third_line p w' = Some ?c"
    unfolding third_line_def f by (simp add: Let_def)
  with w' show ?thesis by blast
qed

lemma parse_line_small_integers:
  assumes "xs \<noteq> []" "\<forall>x\<in>set xs. \<exists>n<1000000. x = real n"
  shows "parse_line (join_commas (map g6 xs)) = map Some xs"
proof -
  have "split_on (CHR '','') (join_commas (map g6 xs)) = map g6 xs"
    using assms(1) g6_free_of_comma by (intro split_on_join_commas) auto
  moreover have "parse_double (g6 x) = Some x" if "x \<in> set xs" for x
  proof -
    from assms(2) that obtain n where "n < 1000000" "x = real n" by blast
    then show ?thesis by (simp add: g6_small_integer parse_double_digits)
  qed
  ultimately show ?thesis by (simp add: parse_line_def)
qed

lemma g6_1234567: "g6 1234567 = ''1.23457e+06''"
proof -
  have d: "digits 1234567 = ''1234567''" "digits 123457 = ''123457''" "digits 6 = ''6''"
    by (simp_all add: digits.simps digit_char_eval)
  have e: "decimal_exponent \<bar>1234567\<bar> = 6" by (simp add: decimal_exponent_def d)
  have r: "round_half_even (\<bar>1234567\<bar> * 10 powi (5 - 6)) = 123457"
    by (simp add: round_half_even_def power_int_def)
  show ?thesis
    unfolding g6_def Let_def e r
    by (simp add: d style_e_def strip_zeros_def point_def)
qed

lemma parse_1234570: "parse_line ''1.23457e+06'' = [Some 1234570]"
  by (simp add: parse_line_def parse_double_def parse_mantissa_def parse_exponent_def
      parse_nat_def digit_of_def)

text \<open>
  C9, as the code has it. When the file opens, there is a sample and the name holds no
  newline, the third line of the exported file is the comma-separated list of every raw
  sample, unscaled and in the original order, each written as the stream writes a
  \<open>double\<close> by default, with six significant digits. Splitting that line at the commas
  and parsing each field gives back the original sequence exactly when every sample is a
  whole number of ticks below one million, which six digits hold.
\<close>

theorem export_third_line:
  assumes "unopenable w p = None" "timeDiff t \<noteq> []" "CHR 10 \<notin> set (name t)"
  shows "\<exists>w'. saveTimingData p t w = Returns w'
           \<and> third_line p w' = Some (join_commas (map g6 (timeDiff t)))
           \<and> ((\<forall>x\<in>set (timeDiff t). \<exists>n<1000000. x = real n) \<longrightarrow>
                map_option parse_line (third_line p w') = Some (map Some (timeDiff t)))"
proof -
  from saveTimingData_third_line[OF assms] obtain w' where
    w': "saveTimingData p t w = Returns w'"
    and l: "third_line p w' = Some (join_commas (map g6 (timeDiff t)))"
    by blast
  have "map_option parse_line (third_line p w') = Some (map Some (timeDiff t))"
    if "\<forall>x\<in>set (timeDiff t). \<exists>n<1000000. x = real n"
    using parse_line_small_integers[OF assms(2) that] l by simp
  with w' l show ?thesis by blast
qed

theorem export_third_line_witness:
  "unopenable world0 ''out.csv'' = None
   \<and> timeDiff \<lparr>startTime = 0, timeDiff = [100, 200, 300], activeTimer = False, name = ''t''\<rparr> \<noteq> []
   \<and> CHR 10 \<notin> set (name \<lparr>startTime = 0, timeDiff = [100, 200, 300], activeTimer = False, name = ''t''\<rparr>)
   \<and> (100::real) = real 100 \<and> (200::real) = real 200 \<and> (300::real) = real 300
   \<and> (\<exists>w'. saveTimingData ''out.csv''
               \<lparr>startTime = 0, timeDiff = [100, 200, 300], activeTimer = False, name = ''t''\<rparr> world0
               = Returns w'
            \<and> third_line ''out.csv'' w' = Some ''100,200,300''
            \<and> map_option parse_line (third_line ''out.csv'' w') = Some [Some 100, Some 200, Some 300])"
proof -
  let ?t = "\<lparr>startTime = 0, timeDiff = [100, 200, 300], activeTimer = False, name = ''t''\<rparr>"
  have h1: "unopenable world0 ''out.csv'' = None" by (simp add: world0_def)
  have h2: "timeDiff ?t \<noteq> []" by simp
  have h3: "CHR 10 \<notin> set (name ?t)" by simp
  have "real 100 = 100" "real 200 = 200" "real 300 = 300" by simp_all
  then have h4: "\<forall>x\<in>set (timeDiff ?t). \<exists>n<1000000. x = real n"
    by (auto intro: exI[of _ "100::nat"] exI[of _ "200::nat"] exI[of _ "300::nat"])
  have g: "g6 100 = ''100''" "g6 200 = ''200''" "g6 300 = ''300''"
    using g6_small_integer[of 100] g6_small_integer[of 200] g6_small_integer[of 300]
    by (simp_all add: digits.simps digit_char_eval)
  from export_third_line[OF h1 h2 h3] h4 obtain w' where
    "saveTimingData ''out.csv'' ?t world0 = Returns w'"
    "third_line ''out.csv'' w' = Some (join_commas (map g6 (timeDiff ?t)))"
    "map_option parse_line (third_line ''out.csv'' w') = Some (map Some (timeDiff ?t))"
    by blast
  then have "\<exists>w'. saveTimingData ''out.csv'' ?t world0 = Returns w'
            \<and> third_line ''out.csv'' w' = Some ''100,200,300''
            \<and> map_option parse_line (third_line ''out.csv'' w') = Some [Some 100, Some 200, Some 300]"
    by (simp add: g join_commas_def)
  with h1 h2 h3 show ?thesis by simp
qed

theorem export_third_line_counterexample:
  "bind (saveTimingData ''out.csv''
           \<lparr>startTime = 0, timeDiff = [1234567], activeTimer = False, name = ''t''\<rparr> world0)
        (\<lambda>w'. Returns (third_line ''out.csv'' w'))
     = Returns (Some ''1.23457e+06'')
   \<and> parse_line ''1.23457e+06'' = [Some 1234570]
   \<and> parse_line ''1.23457e+06''
       \<noteq> map Some (timeDiff \<lparr>startTime = 0, timeDiff = [1234567], activeTimer = False, name = ''t''\<rparr>)"
proof -
  let ?t = "\<lparr>startTime = 0, timeDiff = [1234567], activeTimer = False, name = ''t''\<rparr>"
  have h1: "unopenable world0 ''out.csv'' = None" by (simp add: world0_def)
  have h2: "timeDiff ?t \<noteq> []" by simp
  have h3: "CHR 10 \<notin> set (name ?t)" by simp
  from saveTimingData_third_line[OF h1 h2 h3] obtain w' where
    "saveTimingData ''out.csv'' ?t world0 = Returns w'"
    "third_line ''out.csv'' w' = Some (join_commas (map g6 (timeDiff ?t)))"
    by blast
  then have "bind (saveTimingData ''out.csv'' ?t world0) (\<lambda>w'. Returns (third_line ''out.csv'' w'))
     = Returns (Some ''1.23457e+06'')"
    by (simp add: join_commas_def g6_1234567)
  then show ?thesis by (simp add: parse_1234570)
qed

end
